theory Spec2Isabelle
  imports Main "HOL-Library.AList"
begin

section \<open>The user state client of courseware (user\_state\_client.py)\<close>

text \<open>
  \<^verbatim>\<open>DjangoXBlockUserStateClient\<close> stores the fields of an XBlock, per user, in the rows
  of the \<^verbatim>\<open>StudentModule\<close> table. The embedding follows the Python source function by
  function. Conventions:
  \<^item> an exception is a value of \<open>error\<close>; an operation returns \<open>error + 'a\<close> together with
    the database it leaves behind, so that what a failed call did to the store is visible;
  \<^item> a Python dict is an association list in insertion order;
  \<^item> a generator is modelled by the list of the values it yields when it is run to its
    end; the \<^verbatim>\<open>assert\<close> and \<^verbatim>\<open>raise\<close> at the head of a generator body are the
    failure of that run;
  \<^item> the text column \<^verbatim>\<open>state\<close> holds the JSON text of an object; the JSON codec is a
    library, so a text is modelled by the object it encodes and \<^verbatim>\<open>json.loads\<close> of
    \<^verbatim>\<open>None\<close> is the \<^verbatim>\<open>TypeError\<close> Python raises.
\<close>

subsection \<open>Data\<close>

datatype scope = user_state | user_state_summary | content | settings | preferences | user_info

datatype error =
    AssertionError
  | ValueError
  | DoesNotExist
  | TypeError
  | NotImplementedError
  | MultipleObjectsReturned
  | DatabaseError

record django_user =
  username :: string

record client =
  user :: django_user

record 'c usage_key =
  course_key :: 'c
  block_type :: string
  block_id :: string

type_synonym 'v state_dict = "(string \<times> 'v) list"

datatype 'v json_text = JsonText "'v state_dict"

record ('c, 'v) student_module =
  student :: django_user
  course_id :: 'c
  module_state_key :: "'c usage_key"
  module_type :: string
  state :: "'v json_text option"
  modified :: nat

text \<open>A model instance in memory: the primary key of the row and the values read from it.\<close>

type_synonym ('c, 'v) model_instance = "nat \<times> ('c, 'v) student_module"

datatype 'c db_call =
    ChunkedFilter string 'c "'c usage_key list"
  | GetOrCreate django_user "'c usage_key"
  | Save nat

text \<open>
  Modelled from the spec: the \<^verbatim>\<open>StudentModule\<close> table of courseware.models, which is not
  among the sources. The table is the list of its rows, a row's primary key is its position
  (rows are never removed), \<open>clock\<close> is the time the next write is stamped with in
  \<^verbatim>\<open>modified\<close>, and \<open>calls\<close> records every call made to the table.
\<close>

record ('c, 'v) db =
  rows :: "('c, 'v) student_module list"
  clock :: nat
  calls :: "'c db_call list"

subsection \<open>Library functions\<close>

definition json_dumps :: "'v state_dict \<Rightarrow> 'v json_text" where
  "json_dumps st = JsonText st"

fun json_loads :: "'v json_text option \<Rightarrow> error + 'v state_dict" where
  "json_loads None = Inl TypeError"
| "json_loads (Some (JsonText st)) = Inr st"

text \<open>\<^verbatim>\<open>d.update(other)\<close>, \<^verbatim>\<open>field in d\<close> and \<^verbatim>\<open>del d[field]\<close> on a dict.\<close>

definition dict_update :: "('k \<times> 'v) list \<Rightarrow> ('k \<times> 'v) list \<Rightarrow> ('k \<times> 'v) list" where
  "dict_update d other = fold (\<lambda>(k, v) acc. AList.update k v acc) other d"

definition dict_contains :: "'k \<Rightarrow> ('k \<times> 'v) list \<Rightarrow> bool" where
  "dict_contains k d = (map_of d k \<noteq> None)"

definition dict_del :: "'k \<Rightarrow> ('k \<times> 'v) list \<Rightarrow> ('k \<times> 'v) list" where
  "dict_del k d = AList.delete k d"

text \<open>\<^verbatim>\<open>itertools.groupby\<close>: the maximal runs of consecutive elements with the same key.\<close>

function groupby :: "('a \<Rightarrow> 'k) \<Rightarrow> 'a list \<Rightarrow> ('k \<times> 'a list) list" where
  "groupby f [] = []"
| "groupby f (x # xs) =
     (f x, x # takeWhile (\<lambda>y. f y = f x) xs) # groupby f (dropWhile (\<lambda>y. f y = f x) xs)"
  by pat_completeness auto
termination
  by (relation "measure (\<lambda>(f, xs). length xs)") (auto simp: length_dropWhile_le less_Suc_eq_le)

definition map_into_course :: "'c usage_key \<Rightarrow> 'c \<Rightarrow> 'c usage_key" where
  "map_into_course k c = k\<lparr>course_key := c\<rparr>"

subsection \<open>The table\<close>

text \<open>
  Modelled from the spec: the three calls the client makes on the table. A query selects
  the rows that satisfy its conditions, in the order of their primary keys.
\<close>

definition select_rows ::
  "(('c, 'v) student_module \<Rightarrow> bool) \<Rightarrow> ('c, 'v) db \<Rightarrow> ('c, 'v) model_instance list" where
  "select_rows p d =
     map (\<lambda>pk. (pk, rows d ! pk)) (filter (\<lambda>pk. p (rows d ! pk)) [0..<length (rows d)])"

definition log_call :: "'c db_call \<Rightarrow> ('c, 'v) db \<Rightarrow> ('c, 'v) db" where
  "log_call x d = d\<lparr>calls := calls d @ [x]\<rparr>"

text \<open>
  Modelled from the spec: \<^verbatim>\<open>StudentModule.objects.chunked_filter('module_state_key__in',
  usage_keys, student__username=username, course_id=course_key)\<close>, one batch lookup.
\<close>

definition chunked_filter ::
  "'c usage_key list \<Rightarrow> string \<Rightarrow> 'c \<Rightarrow> ('c, 'v) db \<Rightarrow> ('c, 'v) model_instance list \<times> ('c, 'v) db" where
  "chunked_filter usage_keys uname ck d =
     (select_rows (\<lambda>r. module_state_key r \<in> set usage_keys
                      \<and> username (student r) = uname \<and> course_id r = ck) d,
      log_call (ChunkedFilter uname ck usage_keys) d)"

text \<open>
  Modelled from the spec: \<^verbatim>\<open>StudentModule.objects.get_or_create(student=..., course_id=...,
  module_state_key=..., defaults={'state': ..., 'module_type': ...})\<close>. It returns the row
  found and \<open>False\<close>, or the row it has created and \<open>True\<close>; more than one row found is
  Django's \<^verbatim>\<open>MultipleObjectsReturned\<close>.
\<close>

definition get_or_create ::
  "django_user \<Rightarrow> 'c \<Rightarrow> 'c usage_key \<Rightarrow> 'v json_text \<Rightarrow> string \<Rightarrow> ('c, 'v) db
     \<Rightarrow> (error + (('c, 'v) model_instance \<times> bool)) \<times> ('c, 'v) db" where
  "get_or_create u ck k default_state default_type d =
     (let d1 = log_call (GetOrCreate u k) d
      in case select_rows (\<lambda>r. student r = u \<and> course_id r = ck \<and> module_state_key r = k) d of
           [] \<Rightarrow>
             (let r = \<lparr>student = u, course_id = ck, module_state_key = k,
                       module_type = default_type, state = Some default_state,
                       modified = clock d\<rparr>
              in (Inr ((length (rows d), r), True),
                  d1\<lparr>rows := rows d @ [r], clock := Suc (clock d)\<rparr>))
         | [m] \<Rightarrow> (Inr (m, False), d1)
         | _ \<Rightarrow> (Inl MultipleObjectsReturned, d1))"

text \<open>
  Modelled from the spec: \<^verbatim>\<open>student_module.save(force_update=True)\<close>. The row with the
  instance's primary key takes the instance's values and a new \<^verbatim>\<open>modified\<close>; a forced
  update of a row that is not there is Django's \<^verbatim>\<open>DatabaseError\<close>.
\<close>

definition save :: "('c, 'v) model_instance \<Rightarrow> ('c, 'v) db \<Rightarrow> (error + unit) \<times> ('c, 'v) db" where
  "save m d =
     (let d1 = log_call (Save (fst m)) d
      in if fst m < length (rows d)
         then (Inr (), d1\<lparr>rows := (rows d)[fst m := (snd m)\<lparr>modified := clock d\<rparr>],
                         clock := Suc (clock d)\<rparr>)
         else (Inl DatabaseError, d1))"

subsection \<open>The client\<close>

text \<open>
  \<^verbatim>\<open>_get_student_modules\<close>: the keys are sorted and grouped by course, one query is made
  for each group, and every row found is yielded with its key mapped into its course.
\<close>

fun query_groups ::
  "string \<Rightarrow> ('c \<times> 'c usage_key list) list \<Rightarrow> ('c, 'v) db
     \<Rightarrow> (('c, 'v) model_instance \<times> 'c usage_key) list \<times> ('c, 'v) db" where
  "query_groups uname [] d = ([], d)"
| "query_groups uname ((ck, usage_keys) # by_course) d =
     (case chunked_filter usage_keys uname ck d of
        (query, d1) \<Rightarrow>
          (case query_groups uname by_course d1 of
             (rest, d2) \<Rightarrow>
               (map (\<lambda>sm. (sm, map_into_course (module_state_key (snd sm)) (course_id (snd sm))))
                  query @ rest, d2)))"

definition get_student_modules ::
  "string \<Rightarrow> ('c::linorder) usage_key list \<Rightarrow> ('c, 'v) db
     \<Rightarrow> (('c, 'v) model_instance \<times> 'c usage_key) list \<times> ('c, 'v) db" where
  "get_student_modules uname block_keys d =
     query_groups uname (groupby course_key (sort_key course_key block_keys)) d"

text \<open>The loop of \<^verbatim>\<open>get_many\<close> over the modules found.\<close>

fun get_many_loop ::
  "(('c, 'v) model_instance \<times> 'c usage_key) list \<Rightarrow> error + ('c usage_key \<times> 'v state_dict) list" where
  "get_many_loop [] = Inr []"
| "get_many_loop ((module, usage_key) # modules) =
     (case (if state (snd module) = None then Inr [] else json_loads (state (snd module))) of
        Inl e \<Rightarrow> Inl e
      | Inr st \<Rightarrow>
          (case get_many_loop modules of
             Inl e \<Rightarrow> Inl e
           | Inr rest \<Rightarrow> Inr ((usage_key, st) # rest)))"

definition get_many ::
  "client \<Rightarrow> string \<Rightarrow> ('c::linorder) usage_key list \<Rightarrow> scope \<Rightarrow> string list option
     \<Rightarrow> ('c, 'v) db \<Rightarrow> (error + ('c usage_key \<times> 'v state_dict) list) \<times> ('c, 'v) db" where
  "get_many self uname block_keys scp flds d =
     (if username (user self) \<noteq> uname then (Inl AssertionError, d)
      else if scp \<noteq> user_state then (Inl ValueError, d)
      else case get_student_modules uname block_keys d of
             (modules, d1) \<Rightarrow> (get_many_loop modules, d1))"

text \<open>\<^verbatim>\<open>get\<close>: the first entry of the batch of one key, \<^verbatim>\<open>StopIteration\<close> turned into
  \<^verbatim>\<open>DoesNotExist\<close>.\<close>

definition get ::
  "client \<Rightarrow> string \<Rightarrow> ('c::linorder) usage_key \<Rightarrow> scope \<Rightarrow> string list option
     \<Rightarrow> ('c, 'v) db \<Rightarrow> (error + 'v state_dict) \<times> ('c, 'v) db" where
  "get self uname block_key scp flds d =
     (if username (user self) \<noteq> uname then (Inl AssertionError, d)
      else case get_many self uname [block_key] scp flds d of
             (Inl e, d1) \<Rightarrow> (Inl e, d1)
           | (Inr [], d1) \<Rightarrow> (Inl DoesNotExist, d1)
           | (Inr ((usage_key, st) # _), d1) \<Rightarrow> (Inr st, d1))"

text \<open>The loop of \<^verbatim>\<open>set_many\<close> over the items of \<^verbatim>\<open>block_keys_to_state\<close>.\<close>

fun set_many_loop ::
  "client \<Rightarrow> ('c usage_key \<times> 'v state_dict) list \<Rightarrow> ('c, 'v) db \<Rightarrow> (error + unit) \<times> ('c, 'v) db" where
  "set_many_loop self [] d = (Inr (), d)"
| "set_many_loop self ((usage_key, st) # items) d =
     (case get_or_create (user self) (course_key usage_key) usage_key
             (json_dumps st) (block_type usage_key) d of
        (Inl e, d1) \<Rightarrow> (Inl e, d1)
      | (Inr (student_module, created), d1) \<Rightarrow>
          if \<not> created then
            (case (if state (snd student_module) = None then Inr []
                   else json_loads (state (snd student_module))) of
               Inl e \<Rightarrow> (Inl e, d1)
             | Inr current_state \<Rightarrow>
                 (case save (fst student_module,
                             (snd student_module)
                               \<lparr>state := Some (json_dumps (dict_update current_state st))\<rparr>) d1 of
                    (Inl e, d2) \<Rightarrow> (Inl e, d2)
                  | (Inr _, d2) \<Rightarrow> set_many_loop self items d2))
          else set_many_loop self items d1)"

definition set_many ::
  "client \<Rightarrow> string \<Rightarrow> ('c usage_key \<times> 'v state_dict) list \<Rightarrow> scope
     \<Rightarrow> ('c, 'v) db \<Rightarrow> (error + unit) \<times> ('c, 'v) db" where
  "set_many self uname block_keys_to_state scp d =
     (if username (user self) \<noteq> uname then (Inl AssertionError, d)
      else if scp \<noteq> user_state then (Inl ValueError, d)
      else set_many_loop self block_keys_to_state d)"

definition set_state ::
  "client \<Rightarrow> string \<Rightarrow> 'c usage_key \<Rightarrow> 'v state_dict \<Rightarrow> scope
     \<Rightarrow> ('c, 'v) db \<Rightarrow> (error + unit) \<times> ('c, 'v) db" where
  "set_state self uname block_key st scp d =
     (if username (user self) \<noteq> uname then (Inl AssertionError, d)
      else set_many self uname [(block_key, st)] scp d)"

text \<open>The loops of \<^verbatim>\<open>delete_many\<close>: over the fields to delete, and over the modules found.\<close>

fun delete_fields :: "string list \<Rightarrow> 'v state_dict \<Rightarrow> 'v state_dict" where
  "delete_fields [] current_state = current_state"
| "delete_fields (field # flds) current_state =
     delete_fields flds
       (if dict_contains field current_state then dict_del field current_state
        else current_state)"

fun delete_many_loop ::
  "string list option \<Rightarrow> (('c, 'v) model_instance \<times> 'c usage_key) list \<Rightarrow> ('c, 'v) db
     \<Rightarrow> (error + unit) \<times> ('c, 'v) db" where
  "delete_many_loop flds [] d = (Inr (), d)"
| "delete_many_loop flds ((student_module, _) # student_modules) d =
     (case (case flds of
              None \<Rightarrow> Inr (JsonText [])
            | Some fs \<Rightarrow>
                (case json_loads (state (snd student_module)) of
                   Inl e \<Rightarrow> Inl e
                 | Inr current_state \<Rightarrow> Inr (json_dumps (delete_fields fs current_state)))) of
        Inl e \<Rightarrow> (Inl e, d)
      | Inr new_state \<Rightarrow>
          (case save (fst student_module, (snd student_module)\<lparr>state := Some new_state\<rparr>) d of
             (Inl e, d1) \<Rightarrow> (Inl e, d1)
           | (Inr _, d1) \<Rightarrow> delete_many_loop flds student_modules d1))"

definition delete_many ::
  "client \<Rightarrow> string \<Rightarrow> ('c::linorder) usage_key list \<Rightarrow> scope \<Rightarrow> string list option
     \<Rightarrow> ('c, 'v) db \<Rightarrow> (error + unit) \<times> ('c, 'v) db" where
  "delete_many self uname block_keys scp flds d =
     (if username (user self) \<noteq> uname then (Inl AssertionError, d)
      else if scp \<noteq> user_state then (Inl ValueError, d)
      else case get_student_modules uname block_keys d of
             (student_modules, d1) \<Rightarrow> delete_many_loop flds student_modules d1)"

definition delete ::
  "client \<Rightarrow> string \<Rightarrow> ('c::linorder) usage_key \<Rightarrow> scope \<Rightarrow> string list option
     \<Rightarrow> ('c, 'v) db \<Rightarrow> (error + unit) \<times> ('c, 'v) db" where
  "delete self uname block_key scp flds d =
     (if username (user self) \<noteq> uname then (Inl AssertionError, d)
      else delete_many self uname [block_key] scp flds d)"

text \<open>The loop of \<^verbatim>\<open>get_mod_date_many\<close>; a module without state is passed over.\<close>

fun get_mod_date_many_loop ::
  "(('c, 'v) model_instance \<times> 'c usage_key) list \<Rightarrow> error + ('c usage_key \<times> string \<times> nat) list" where
  "get_mod_date_many_loop [] = Inr []"
| "get_mod_date_many_loop ((student_module, usage_key) # student_modules) =
     (if state (snd student_module) = None then get_mod_date_many_loop student_modules
      else case json_loads (state (snd student_module)) of
             Inl e \<Rightarrow> Inl e
           | Inr st \<Rightarrow>
               (case get_mod_date_many_loop student_modules of
                  Inl e \<Rightarrow> Inl e
                | Inr rest \<Rightarrow>
                    Inr (map (\<lambda>field. (usage_key, field, modified (snd student_module)))
                           (map fst st) @ rest)))"

definition get_mod_date_many ::
  "client \<Rightarrow> string \<Rightarrow> ('c::linorder) usage_key list \<Rightarrow> scope \<Rightarrow> string list option
     \<Rightarrow> ('c, 'v) db \<Rightarrow> (error + ('c usage_key \<times> string \<times> nat) list) \<times> ('c, 'v) db" where
  "get_mod_date_many self uname block_keys scp flds d =
     (if username (user self) \<noteq> uname then (Inl AssertionError, d)
      else if scp \<noteq> user_state then (Inl ValueError, d)
      else case get_student_modules uname block_keys d of
             (student_modules, d1) \<Rightarrow> (get_mod_date_many_loop student_modules, d1))"

text \<open>\<^verbatim>\<open>get_mod_date\<close> has no assertion of its own; the dict comprehension runs the
  generator and keeps, for each field, the last date yielded.\<close>

definition get_mod_date ::
  "client \<Rightarrow> string \<Rightarrow> ('c::linorder) usage_key \<Rightarrow> scope \<Rightarrow> string list option
     \<Rightarrow> ('c, 'v) db \<Rightarrow> (error + (string \<times> nat) list) \<times> ('c, 'v) db" where
  "get_mod_date self uname block_key scp flds d =
     (case get_mod_date_many self uname [block_key] scp flds d of
        (Inl e, d1) \<Rightarrow> (Inl e, d1)
      | (Inr results, d1) \<Rightarrow>
          (Inr (fold (\<lambda>(_, field, date) acc. AList.update field date acc) results []), d1))"

definition get_history ::
  "client \<Rightarrow> string \<Rightarrow> 'c usage_key \<Rightarrow> scope \<Rightarrow> ('c, 'v) db \<Rightarrow> (error + unit) \<times> ('c, 'v) db" where
  "get_history self uname block_key scp d =
     (if username (user self) \<noteq> uname then (Inl AssertionError, d)
      else if scp \<noteq> user_state then (Inl ValueError, d)
      else (Inl NotImplementedError, d))"

subsection \<open>Notions of the specification\<close>

text \<open>
  The records of an owner at a content key: the rows of that student, in the key's course,
  with that key. The table's unique index allows at most one.
\<close>

definition at_key :: "string \<Rightarrow> 'c usage_key \<Rightarrow> ('c, 'v) student_module \<Rightarrow> bool" where
  "at_key uname k r =
     (username (student r) = uname \<and> course_id r = course_key k \<and> module_state_key r = k)"

definition stored_rows :: "string \<Rightarrow> 'c usage_key \<Rightarrow> ('c, 'v) db \<Rightarrow> ('c, 'v) student_module list" where
  "stored_rows uname k d = filter (at_key uname k) (rows d)"

text \<open>
  The unique index of the table, \<^verbatim>\<open>unique_together = (student, module_state_key,
  course_id)\<close>: no two rows agree on all three columns.
\<close>

definition row_key :: "('c, 'v) student_module \<Rightarrow> django_user \<times> 'c \<times> 'c usage_key" where
  "row_key r = (student r, course_id r, module_state_key r)"

definition unique_together :: "('c, 'v) db \<Rightarrow> bool" where
  "unique_together d = distinct (map row_key (rows d))"

text \<open>
  A history of the owner's writes through the client, each with the owner's own username
  and the supported scope, and the table it leaves behind; \<open>written_keys\<close> are the keys
  the history has set.
\<close>

datatype ('c, 'v) client_write =
    Set "'c usage_key" "'v state_dict"
  | Delete "'c usage_key list" "string list option"

fun run :: "client \<Rightarrow> (('c::linorder), 'v) client_write list \<Rightarrow> ('c, 'v) db \<Rightarrow> ('c, 'v) db" where
  "run self [] d = d"
| "run self (Set k st # ws) d =
     run self ws (snd (set_state self (username (user self)) k st user_state d))"
| "run self (Delete ks flds # ws) d =
     run self ws (snd (delete_many self (username (user self)) ks user_state flds d))"

fun written_keys :: "('c, 'v) client_write list \<Rightarrow> 'c usage_key list" where
  "written_keys [] = []"
| "written_keys (Set k st # ws) = k # written_keys ws"
| "written_keys (Delete ks flds # ws) = written_keys ws"

text \<open>The field map a row stands for: the empty map when its state is null.\<close>

definition state_fields :: "('c, 'v) student_module \<Rightarrow> 'v state_dict" where
  "state_fields r = (case state r of None \<Rightarrow> [] | Some (JsonText st) \<Rightarrow> st)"


subsection \<open>Example values\<close>

definition alice :: client where
  "alice = \<lparr>user = \<lparr>username = ''alice''\<rparr>\<rparr>"

definition key1 :: "nat usage_key" where
  "key1 = \<lparr>course_key = 1, block_type = ''problem'', block_id = ''p1''\<rparr>"

definition key2 :: "nat usage_key" where
  "key2 = \<lparr>course_key = 2, block_type = ''video'', block_id = ''v1''\<rparr>"

definition key3 :: "nat usage_key" where
  "key3 = \<lparr>course_key = 1, block_type = ''html'', block_id = ''h1''\<rparr>"

definition db0 :: "(nat, int) db" where
  "db0 = \<lparr>rows = [], clock = 0, calls = []\<rparr>"

text \<open>A row of alice's at \<open>key1\<close> whose state column is null, and a table with that row.\<close>

definition null_row :: "(nat, int) student_module" where
  "null_row = \<lparr>student = \<lparr>username = ''alice''\<rparr>, course_id = 1, module_state_key = key1,
                module_type = ''problem'', state = None, modified = 7\<rparr>"

definition db_null :: "(nat, int) db" where
  "db_null = \<lparr>rows = [null_row], clock = 8, calls = []\<rparr>"

text \<open>The table after alice has set the field \<open>a\<close> at \<open>key1\<close> in the empty table.\<close>

definition db_a :: "(nat, int) db" where
  "db_a = snd (set_state alice ''alice'' key1 [(''a'', 1)] user_state db0)"

section \<open>Properties\<close>

subsection \<open>Grouping by course\<close>

lemma dropWhile_above:
  fixes f :: "'a \<Rightarrow> 'k::linorder"
  shows "sorted (map f xs) \<Longrightarrow> \<forall>y\<in>set xs. a \<le> f y
    \<Longrightarrow> a \<notin> f ` set (dropWhile (\<lambda>y. f y = a) xs)"
proof (induction xs)
  case Nil
  then show ?case by simp
next
  case (Cons y ys)
  show ?case
  proof (cases "f y = a")
    case True
    with Cons show ?thesis by simp
  next
    case False
    with Cons.prems have "a < f y" by auto
    moreover from Cons.prems have "\<forall>z\<in>set ys. f y \<le> f z" by auto
    ultimately show ?thesis using False by auto
  qed
qed

lemma groupby_keys_set: "fst ` set (groupby f xs) = f ` set xs"
proof (induction f xs rule: groupby.induct)
  case (1 f)
  then show ?case by simp
next
  case (2 f x xs)
  have "set xs = set (takeWhile (\<lambda>y. f y = f x) xs) \<union> set (dropWhile (\<lambda>y. f y = f x) xs)"
    by (metis set_append takeWhile_dropWhile_id)
  moreover have "f ` set (takeWhile (\<lambda>y. f y = f x) xs) \<subseteq> {f x}"
    by (auto dest: set_takeWhileD)
  ultimately have
    "insert (f x) (f ` set xs) = insert (f x) (f ` set (dropWhile (\<lambda>y. f y = f x) xs))"
    by auto
  with 2 show ?case by simp
qed

lemma groupby_keys_distinct:
  fixes f :: "'a \<Rightarrow> 'k::linorder"
  shows "sorted (map f xs) \<Longrightarrow> distinct (map fst (groupby f xs))"
proof (induction f xs rule: groupby.induct)
  case (1 f)
  then show ?case by simp
next
  case (2 f x xs)
  from 2 have s: "sorted (map f xs)" and le: "\<forall>y\<in>set xs. f x \<le> f y" by auto
  have "sorted (map f (dropWhile (\<lambda>y. f y = f x) xs))"
    using s by (metis takeWhile_dropWhile_id map_append sorted_wrt_append)
  moreover have "f x \<notin> f ` set (dropWhile (\<lambda>y. f y = f x) xs)"
    using dropWhile_above [OF s le] .
  ultimately show ?case using 2 by (simp add: groupby_keys_set)
qed

lemma groupby_length:
  fixes f :: "'a \<Rightarrow> 'k::linorder"
  shows "length (groupby f (sort_key f xs)) = card (f ` set xs)"
proof -
  have "length (groupby f (sort_key f xs)) = length (map fst (groupby f (sort_key f xs)))"
    by simp
  also have "\<dots> = card (set (map fst (groupby f (sort_key f xs))))"
    using groupby_keys_distinct [of f "sort_key f xs"] distinct_card by (metis sorted_sort_key)
  also have "\<dots> = card (f ` set xs)"
    by (simp add: groupby_keys_set)
  finally show ?thesis .
qed

lemma query_groups_calls:
  "calls (snd (query_groups uname gs d))
     = calls d @ map (\<lambda>g. ChunkedFilter uname (fst g) (snd g)) gs"
  by (induction uname gs d rule: query_groups.induct)
    (simp_all add: chunked_filter_def log_call_def split_beta)

lemma query_groups_rows: "rows (snd (query_groups uname gs d)) = rows d"
  by (induction uname gs d rule: query_groups.induct)
    (simp_all add: chunked_filter_def log_call_def split_beta)

text \<open>
  C8: \<open>get_many\<close> on keys of N distinct courses makes exactly N calls to the table, all
  of them batch queries: one \<^verbatim>\<open>chunked_filter\<close> for each group of the keys by course, the
  groups being of N distinct courses, whatever the number of keys.
\<close>

theorem get_many_one_query_per_course:
  "calls (snd (get_many self (username (user self)) ks user_state flds d))
     = calls d @ map (\<lambda>g. ChunkedFilter (username (user self)) (fst g) (snd g))
                   (groupby course_key (sort_key course_key ks))
   \<and> length (groupby course_key (sort_key course_key ks)) = card (course_key ` set ks)
   \<and> distinct (map fst (groupby course_key (sort_key course_key ks)))"
  using query_groups_calls
    [of "username (user self)" "groupby course_key (sort_key course_key ks)" d]
  by (simp add: get_many_def get_student_modules_def groupby_length groupby_keys_distinct
      split_beta)

subsection \<open>The table and the loops\<close>

lemma select_rows_snd: "map snd (select_rows p d) = filter p (rows d)"
proof -
  have "map snd (select_rows p d)
      = map ((!) (rows d)) (filter (\<lambda>pk. p (rows d ! pk)) [0..<length (rows d)])"
    by (simp add: select_rows_def comp_def)
  also have "\<dots> = filter p (map ((!) (rows d)) [0..<length (rows d)])"
    by (simp add: filter_map comp_def)
  also have "\<dots> = filter p (rows d)"
    by (simp add: map_nth)
  finally show ?thesis .
qed

lemma select_rows_cong:
  "(\<And>r. r \<in> set (rows d) \<Longrightarrow> p r = q r) \<Longrightarrow> rows d' = rows d
     \<Longrightarrow> select_rows p d' = select_rows q d"
  unfolding select_rows_def
  by (auto intro!: arg_cong [where f = "map _"] filter_cong)

lemma select_rows_in:
  "(pk, r) \<in> set (select_rows p d) \<longleftrightarrow> pk < length (rows d) \<and> rows d ! pk = r \<and> p r"
  by (auto simp: select_rows_def)

lemma select_rows_append:
  "rows d' = rows d @ [r] \<Longrightarrow>
   select_rows p d' = select_rows p d @ (if p r then [(length (rows d), r)] else [])"
  by (auto simp: select_rows_def nth_append intro!: arg_cong [where f = "map _"] filter_cong map_cong)

lemma select_rows_update:
  assumes "rows d' = (rows d)[i := y]" "i < length (rows d)" "p y = p (rows d ! i)"
  shows "select_rows p d' = map (\<lambda>m. if fst m = i then (i, y) else m) (select_rows p d)"
proof -
  have "filter (\<lambda>pk. p ((rows d)[i := y] ! pk)) [0..<length (rows d)]
      = filter (\<lambda>pk. p (rows d ! pk)) [0..<length (rows d)]"
    using assms by (intro filter_cong) (auto simp: nth_list_update)
  then show ?thesis
    using assms by (auto simp: select_rows_def nth_list_update)
qed

lemma stored_rows_select: "stored_rows uname k d = map snd (select_rows (at_key uname k) d)"
  by (simp add: select_rows_snd stored_rows_def)

lemma get_many_loop_total:
  "get_many_loop modules = Inr (map (\<lambda>m. (snd m, state_fields (snd (fst m)))) modules)"
proof (induction modules)
  case Nil
  then show ?case by simp
next
  case (Cons m modules)
  obtain sm uk where m: "m = (sm, uk)" by (cases m)
  show ?case
  proof (cases "state (snd sm)")
    case None
    with Cons m show ?thesis by (simp add: state_fields_def)
  next
    case (Some t)
    with Cons m show ?thesis by (cases t) (simp add: state_fields_def)
  qed
qed

lemma get_student_modules_single:
  "get_student_modules uname [k] d =
     (map (\<lambda>sm. (sm, k)) (select_rows (at_key uname k) d),
      log_call (ChunkedFilter uname (course_key k) [k]) d)"
proof -
  have "select_rows (\<lambda>r. module_state_key r \<in> set [k] \<and> username (student r) = uname
                         \<and> course_id r = course_key k) d = select_rows (at_key uname k) d"
    by (rule select_rows_cong) (auto simp: at_key_def)
  moreover have "map (\<lambda>sm. (sm, map_into_course (module_state_key (snd sm)) (course_id (snd sm))))
            (select_rows (at_key uname k) d)
        = map (\<lambda>sm. (sm, k)) (select_rows (at_key uname k) d)"
    by (rule map_cong) (auto simp: select_rows_in at_key_def map_into_course_def)
  ultimately show ?thesis
    by (simp add: get_student_modules_def chunked_filter_def)
qed

lemma get_single:
  "get self (username (user self)) k user_state flds d =
     (case select_rows (at_key (username (user self)) k) d of
        [] \<Rightarrow> Inl DoesNotExist
      | m # _ \<Rightarrow> Inr (state_fields (snd m)),
      log_call (ChunkedFilter (username (user self)) (course_key k) [k]) d)"
  by (simp add: get_def get_many_def get_student_modules_single get_many_loop_total
      split: list.splits)

lemma user_eq: "(u :: django_user) = v \<longleftrightarrow> username u = username v"
  by (cases u, cases v) simp

lemma get_or_create_select:
  "select_rows (\<lambda>r. student r = user self \<and> course_id r = course_key k \<and> module_state_key r = k) d
    = select_rows (at_key (username (user self)) k) d"
  by (rule select_rows_cong) (auto simp: at_key_def user_eq)

lemma loaded_state:
  "(if state r = None then Inr [] else json_loads (state r)) = Inr (state_fields r)"
  by (cases "state r"; simp add: state_fields_def; cases "the (state r)"; simp)

lemma set_many_loop_Cons:
  "set_many_loop self ((k, st) # items) d =
     (case get_or_create (user self) (course_key k) k (json_dumps st) (block_type k) d of
        (Inl e, d1) \<Rightarrow> (Inl e, d1)
      | (Inr (sm, created), d1) \<Rightarrow>
          if \<not> created then
            (case save (fst sm, (snd sm)
                          \<lparr>state := Some (json_dumps (dict_update (state_fields (snd sm)) st))\<rparr>) d1 of
               (Inl e, d2) \<Rightarrow> (Inl e, d2)
             | (Inr _, d2) \<Rightarrow> set_many_loop self items d2)
          else set_many_loop self items d1)"
  by (simp only: set_many_loop.simps loaded_state sum.case)

lemma select_rows_log [simp]: "select_rows p (log_call c d) = select_rows p d"
  by (simp add: select_rows_def log_call_def)

lemma set_state_fresh:
  assumes "select_rows (at_key (username (user self)) k) d = []"
  shows "fst (set_state self (username (user self)) k st user_state d) = Inr ()
     \<and> select_rows (at_key (username (user self)) k)
          (snd (set_state self (username (user self)) k st user_state d))
        = [(length (rows d),
            \<lparr>student = user self, course_id = course_key k, module_state_key = k,
              module_type = block_type k, state = Some (json_dumps st), modified = clock d\<rparr>)]
     \<and> rows (snd (set_state self (username (user self)) k st user_state d))
        = rows d @ [\<lparr>student = user self, course_id = course_key k, module_state_key = k,
              module_type = block_type k, state = Some (json_dumps st), modified = clock d\<rparr>]"
proof -
  let ?r = "\<lparr>student = user self, course_id = course_key k, module_state_key = k,
              module_type = block_type k, state = Some (json_dumps st), modified = clock d\<rparr>"
  let ?d1 = "(log_call (GetOrCreate (user self) k) d)\<lparr>rows := rows d @ [?r], clock := Suc (clock d)\<rparr>"
  have s: "set_state self (username (user self)) k st user_state d = (Inr (), ?d1)"
    using assms
    by (simp add: set_state_def set_many_def set_many_loop_Cons get_or_create_def
        get_or_create_select Let_def del: set_many_loop.simps(2))
  have "select_rows (at_key (username (user self)) k) ?d1
      = select_rows (at_key (username (user self)) k) d @ [(length (rows d), ?r)]"
    by (subst select_rows_append [where d = d and r = ?r]) (simp_all add: at_key_def)
  with s assms show ?thesis by simp
qed

lemma set_state_existing:
  assumes "select_rows (at_key (username (user self)) k) d = [(i, r)]"
  shows "fst (set_state self (username (user self)) k st user_state d) = Inr ()
     \<and> select_rows (at_key (username (user self)) k)
          (snd (set_state self (username (user self)) k st user_state d))
        = [(i, r\<lparr>state := Some (json_dumps (dict_update (state_fields r) st)),
                  modified := clock d\<rparr>)]
     \<and> rows (snd (set_state self (username (user self)) k st user_state d))
        = (rows d)[i := r\<lparr>state := Some (json_dumps (dict_update (state_fields r) st)),
                           modified := clock d\<rparr>]"
proof -
  let ?y = "r\<lparr>state := Some (json_dumps (dict_update (state_fields r) st)), modified := clock d\<rparr>"
  let ?d0 = "log_call (Save i) (log_call (GetOrCreate (user self) k) d)"
  let ?d2 = "?d0\<lparr>rows := (rows d)[i := ?y], clock := Suc (clock d)\<rparr>"
  have "(i, r) \<in> set (select_rows (at_key (username (user self)) k) d)"
    using assms by simp
  then have i: "i < length (rows d)" and r: "rows d ! i = r" and p: "at_key (username (user self)) k r"
    by (simp_all add: select_rows_in)
  have s: "set_state self (username (user self)) k st user_state d = (Inr (), ?d2)"
    using assms i
    by (simp add: set_state_def set_many_def set_many_loop_Cons get_or_create_def
        get_or_create_select Let_def save_def log_call_def del: set_many_loop.simps(2))
  have "select_rows (at_key (username (user self)) k) ?d2
      = map (\<lambda>m. if fst m = i then (i, ?y) else m) (select_rows (at_key (username (user self)) k) d)"
    using i r p by (intro select_rows_update) (simp_all add: at_key_def log_call_def)
  with s assms show ?thesis by simp
qed

lemma dict_update_map_of:
  "map_of (dict_update d other) = map_of d ++ map_of (rev other)"
  unfolding dict_update_def
proof (induction other arbitrary: d)
  case Nil
  then show ?case by simp
next
  case (Cons x xs)
  obtain k v where x: "x = (k, v)" by (cases x)
  have "map_of (fold (\<lambda>(k, v). AList.update k v) (x # xs) d)
      = map_of (AList.update k v d) ++ map_of (rev xs)"
    by (simp add: x Cons)
  also have "map_of (AList.update k v d) = (map_of d)(k \<mapsto> v)"
    by (rule update_conv')
  also have "(map_of d)(k \<mapsto> v) = map_of d ++ [k \<mapsto> v]"
    by simp
  also have "map_of d ++ [k \<mapsto> v] ++ map_of (rev xs) = map_of d ++ map_of (rev (x # xs))"
    by (simp only: x rev.simps map_of_append map_add_assoc map_of.simps fst_conv snd_conv)
  finally show ?case .
qed

subsection \<open>Writing and reading back\<close>

lemma map_of_rev_distinct: "distinct (map fst xs) \<Longrightarrow> map_of (rev xs) = map_of xs"
  by (subst map_of_inject_set) (simp_all add: rev_map [symmetric])

lemma db_a_eq: "db_a = \<lparr>rows = [\<lparr>student = \<lparr>username = ''alice''\<rparr>, course_id = 1, module_state_key = key1,
               module_type = ''problem'', state = Some (JsonText [(''a'', 1)]), modified = 0\<rparr>],
      clock = 1, calls = [GetOrCreate \<lparr>username = ''alice''\<rparr> key1]\<rparr>"
  by (simp add: db_a_def set_state_def set_many_def get_or_create_def select_rows_def db0_def
      log_call_def alice_def key1_def json_dumps_def Let_def)

text \<open>
  C1: when the owner has at most one record at the key (the table's unique index) and
  \<open>P\<close> is a dict, \<open>set\<close> of \<open>P\<close> succeeds, and \<open>get\<close> then returns exactly \<open>P\<close> if there was
  no record, and the stored field map updated with \<open>P\<close> if there was one; the updated
  map has the value of \<open>P\<close> at each key of \<open>P\<close> and the stored value at every other key.
  After the \<open>set\<close> the owner has exactly one record at the key.
\<close>

theorem set_then_get:
  assumes "length (stored_rows (username (user self)) k d) \<le> 1"
    and "distinct (map fst P)"
  shows "fst (set_state self (username (user self)) k P user_state d) = Inr ()
    \<and> fst (get self (username (user self)) k user_state flds
             (snd (set_state self (username (user self)) k P user_state d)))
        = Inr (case stored_rows (username (user self)) k d of
                 [] \<Rightarrow> P
               | r # _ \<Rightarrow> dict_update (state_fields r) P)
    \<and> map_of (dict_update stored P) = map_of stored ++ map_of P
    \<and> length (stored_rows (username (user self)) k
                (snd (set_state self (username (user self)) k P user_state d))) = 1"
proof (cases "select_rows (at_key (username (user self)) k) d")
  case Nil
  then have "stored_rows (username (user self)) k d = []"
    by (simp add: stored_rows_select)
  with set_state_fresh [OF Nil, of P] assms(2) show ?thesis
    by (simp add: get_single stored_rows_select state_fields_def json_dumps_def
        dict_update_map_of map_of_rev_distinct)
next
  case (Cons m ms)
  from assms have "length (select_rows (at_key (username (user self)) k) d) \<le> 1"
    using stored_rows_select [of "username (user self)" k d]
    by (metis length_map)
  with Cons have ms: "ms = []" by simp
  obtain i r where m: "m = (i, r)" by (cases m)
  from Cons ms m have sel: "select_rows (at_key (username (user self)) k) d = [(i, r)]"
    by simp
  then have "stored_rows (username (user self)) k d = [r]"
    by (simp add: stored_rows_select)
  with set_state_existing [OF sel, of P] assms(2) show ?thesis
    by (simp add: get_single stored_rows_select state_fields_def json_dumps_def
        dict_update_map_of map_of_rev_distinct)
qed

theorem set_then_get_witness:
  "length (stored_rows (username (user alice)) key1 db0) \<le> 1
   \<and> distinct (map fst [(''a'', 1::int)])
   \<and> fst (set_state alice (username (user alice)) key1 [(''a'', 1)] user_state db0) = Inr ()
   \<and> fst (get alice (username (user alice)) key1 user_state None
            (snd (set_state alice (username (user alice)) key1 [(''a'', 1)] user_state db0)))
       = Inr [(''a'', 1)]
   \<and> length (stored_rows (username (user alice)) key1 db_a) \<le> 1
   \<and> distinct (map fst [(''b'', 2::int)])
   \<and> fst (get alice (username (user alice)) key1 user_state None
            (snd (set_state alice (username (user alice)) key1 [(''b'', 2)] user_state db_a)))
       = Inr [(''a'', 1), (''b'', 2)]"
proof -
  have h0: "stored_rows (username (user alice)) key1 db0 = []"
    by (simp add: stored_rows_def db0_def)
  have ha: "stored_rows (username (user alice)) key1 db_a
      = [\<lparr>student = \<lparr>username = ''alice''\<rparr>, course_id = 1, module_state_key = key1,
               module_type = ''problem'', state = Some (JsonText [(''a'', 1)]), modified = 0\<rparr>]"
    by (simp add: stored_rows_def db_a_eq at_key_def alice_def key1_def)
  have l0: "length (stored_rows (username (user alice)) key1 db0) \<le> 1"
    by (simp add: h0)
  have la: "length (stored_rows (username (user alice)) key1 db_a) \<le> 1"
    by (simp add: ha)
  have d1: "distinct (map fst [(''a'', 1::int)])" and d2: "distinct (map fst [(''b'', 2::int)])"
    by simp_all
  show ?thesis
    using set_then_get [OF l0 d1, of None] set_then_get [OF la d2, of None] l0 la
    by (simp add: h0 ha state_fields_def dict_update_def)
qed

subsection \<open>Missing records\<close>

lemma groupby_same_key: "g \<in> set (groupby f xs) \<Longrightarrow> x \<in> set (snd g) \<Longrightarrow> f x = fst g"
proof (induction f xs rule: groupby.induct)
  case (1 f)
  then show ?case by simp
next
  case (2 f y ys)
  then show ?case by (auto dest: set_takeWhileD)
qed

lemma groupby_concat: "concat (map snd (groupby f xs)) = xs"
  by (induction f xs rule: groupby.induct) simp_all

lemma groupby_members: "(\<Union>g\<in>set (groupby f xs). set (snd g)) = set xs"
proof -
  have "set (concat (map snd (groupby f xs))) = set xs"
    by (simp only: groupby_concat)
  then show ?thesis by simp
qed

lemma query_groups_fst:
  "fst (query_groups uname gs d) =
     concat (map (\<lambda>g. map (\<lambda>sm. (sm, map_into_course (module_state_key (snd sm)) (course_id (snd sm))))
       (select_rows (\<lambda>r. module_state_key r \<in> set (snd g) \<and> username (student r) = uname
                          \<and> course_id r = fst g) d)) gs)"
proof (induction uname gs d rule: query_groups.induct)
  case (1 uname d)
  then show ?case by simp
next
  case (2 uname ck usage_keys by_course d)
  from 2 [of "fst (chunked_filter usage_keys uname ck d)" "snd (chunked_filter usage_keys uname ck d)"]
  show ?case
    by (simp add: split_beta) (simp add: chunked_filter_def)
qed

lemma found_keys:
  fixes ks :: "('c::linorder) usage_key list"
  shows "snd ` set (fst (get_student_modules uname ks d))
     = {k \<in> set ks. stored_rows uname k d \<noteq> []}"
proof -
  let ?gs = "groupby course_key (sort_key course_key ks)"
  have mem: "(\<Union>g\<in>set ?gs. set (snd g)) = set ks"
    by (simp add: groupby_members)
  have same: "\<And>g x. g \<in> set ?gs \<Longrightarrow> x \<in> set (snd g) \<Longrightarrow> course_key x = fst g"
    by (rule groupby_same_key)
  show ?thesis
  proof (intro set_eqI iffI)
    fix k
    assume "k \<in> snd ` set (fst (get_student_modules uname ks d))"
    then obtain g pk r where g: "g \<in> set ?gs"
      and r: "pk < length (rows d)" "rows d ! pk = r" "module_state_key r \<in> set (snd g)"
        "username (student r) = uname" "course_id r = fst g"
      and k: "k = map_into_course (module_state_key r) (course_id r)"
      by (auto simp: get_student_modules_def query_groups_fst select_rows_in)
    from same [OF g r(3)] r(5) k have kk: "k = module_state_key r"
      by (simp add: map_into_course_def)
    with g r(3) mem have "k \<in> set ks" by auto
    moreover have "at_key uname k r"
      using kk r same [OF g r(3)] by (simp add: at_key_def)
    then have "r \<in> set (stored_rows uname k d)"
      using r(1,2) by (auto simp: stored_rows_def)
    ultimately show "k \<in> {k \<in> set ks. stored_rows uname k d \<noteq> []}"
      by auto
  next
    fix k
    assume "k \<in> {k \<in> set ks. stored_rows uname k d \<noteq> []}"
    then have ks: "k \<in> set ks" and "stored_rows uname k d \<noteq> []" by auto
    then obtain r where "r \<in> set (stored_rows uname k d)"
      by (cases "stored_rows uname k d") auto
    then have rin: "r \<in> set (rows d)" and at: "at_key uname k r"
      by (auto simp: stored_rows_def)
    from rin obtain pk where pk: "pk < length (rows d)" "rows d ! pk = r"
      by (auto simp: in_set_conv_nth)
    from ks mem obtain g where g: "g \<in> set ?gs" "k \<in> set (snd g)" by blast
    from same [OF g] have fg: "fst g = course_key k" by simp
    have sel: "(pk, r) \<in> set (select_rows (\<lambda>r. module_state_key r \<in> set (snd g)
        \<and> username (student r) = uname \<and> course_id r = fst g) d)"
      using pk at g fg by (simp add: select_rows_in at_key_def)
    have "map_into_course (module_state_key r) (course_id r) = k"
      using at by (simp add: at_key_def map_into_course_def)
    with sel g(1) show "k \<in> snd ` set (fst (get_student_modules uname ks d))"
      by (force simp: get_student_modules_def query_groups_fst)
  qed
qed

text \<open>The unique index is kept by every write; only \<open>set\<close> makes a record.\<close>

lemma at_key_row_key:
  "at_key (username (user self)) k r \<longleftrightarrow> row_key r = (user self, course_key k, k)"
  by (auto simp: at_key_def row_key_def user_eq)

lemma has_record_keys:
  "(stored_rows (username (user self)) k d \<noteq> []) =
     ((user self, course_key k, k) \<in> row_key ` set (rows d))"
proof -
  have "(stored_rows (username (user self)) k d \<noteq> [])
      = (\<exists>r\<in>set (rows d). row_key r = (user self, course_key k, k))"
    by (simp add: stored_rows_def filter_empty_conv at_key_row_key)
  also have "\<dots> = ((user self, course_key k, k) \<in> row_key ` set (rows d))"
    by (simp add: image_iff eq_commute)
  finally show ?thesis .
qed

lemma filter_key_le1: "distinct (map f xs) \<Longrightarrow> length (filter (\<lambda>x. f x = a) xs) \<le> 1"
proof (induction xs)
  case Nil
  then show ?case by simp
next
  case (Cons x xs)
  show ?case
  proof (cases "f x = a")
    case True
    with Cons.prems have "\<forall>y\<in>set xs. f y \<noteq> a"
      by (simp add: image_iff) metis
    then have "filter (\<lambda>x. f x = a) xs = []"
      by (simp add: filter_empty_conv)
    with True show ?thesis by simp
  next
    case False
    with Cons show ?thesis by simp
  qed
qed

lemma unique_stored_rows:
  "unique_together d \<Longrightarrow> length (stored_rows (username (user self)) k d) \<le> 1"
proof -
  assume "unique_together d"
  then have "length (filter (\<lambda>r. row_key r = (user self, course_key k, k)) (rows d)) \<le> 1"
    unfolding unique_together_def by (rule filter_key_le1)
  moreover have "stored_rows (username (user self)) k d
      = filter (\<lambda>r. row_key r = (user self, course_key k, k)) (rows d)"
    unfolding stored_rows_def by (rule filter_cong) (simp_all add: at_key_row_key)
  ultimately show ?thesis by simp
qed

lemma set_state_keys:
  assumes "unique_together d"
  shows "map row_key (rows (snd (set_state self (username (user self)) k st user_state d)))
     = (if stored_rows (username (user self)) k d = []
        then map row_key (rows d) @ [(user self, course_key k, k)]
        else map row_key (rows d))"
proof (cases "select_rows (at_key (username (user self)) k) d")
  case Nil
  then have "stored_rows (username (user self)) k d = []"
    by (simp add: stored_rows_select)
  with set_state_fresh [OF Nil, of st] show ?thesis
    by (simp add: row_key_def)
next
  case (Cons m ms)
  from unique_stored_rows [OF assms, of self k]
  have "length (select_rows (at_key (username (user self)) k) d) \<le> 1"
    using stored_rows_select [of "username (user self)" k d]
    by (metis length_map)
  with Cons have ms: "ms = []" by simp
  obtain i r where m: "m = (i, r)" by (cases m)
  from Cons ms m have sel: "select_rows (at_key (username (user self)) k) d = [(i, r)]"
    by simp
  then have ne: "stored_rows (username (user self)) k d = [r]"
    by (simp add: stored_rows_select)
  have "(i, r) \<in> set (select_rows (at_key (username (user self)) k) d)"
    using sel by simp
  then have i: "i < length (rows d)" and r: "rows d ! i = r"
    by (simp_all add: select_rows_in)
  from set_state_existing [OF sel, of st] i r ne show ?thesis
    by (simp add: map_update row_key_def list_update_same_conv)
qed

lemma set_state_invariant:
  assumes "unique_together d"
  shows "unique_together (snd (set_state self (username (user self)) k st user_state d))"
  using assms set_state_keys [OF assms, of self k st] has_record_keys [of self k d]
  by (simp add: unique_together_def split: if_splits)

lemma set_state_records:
  assumes "unique_together d"
  shows "(stored_rows (username (user self)) k
            (snd (set_state self (username (user self)) k' st user_state d)) \<noteq> [])
     = (stored_rows (username (user self)) k d \<noteq> [] \<or> k = k')"
proof (cases "stored_rows (username (user self)) k' d = []")
  case True
  then have "row_key ` set (rows (snd (set_state self (username (user self)) k' st user_state d)))
      = insert (user self, course_key k', k') (row_key ` set (rows d))"
    using set_state_keys [OF assms, of self k' st]
    by (metis (no_types, lifting) Un_insert_right list.set(1,2) set_append set_map sup_bot.right_neutral)
  then show ?thesis
    by (auto simp: has_record_keys)
next
  case False
  then have "row_key ` set (rows (snd (set_state self (username (user self)) k' st user_state d)))
      = row_key ` set (rows d)"
    using set_state_keys [OF assms, of self k' st]
    by (metis set_map)
  with False show ?thesis
    by (auto simp: has_record_keys)
qed

lemma save_keys:
  assumes "fst m < length (rows d)" "row_key (snd m) = row_key (rows d ! fst m)"
  shows "fst (save m d) = Inr () \<and> map row_key (rows (snd (save m d))) = map row_key (rows d)"
proof -
  have "row_key ((snd m)\<lparr>modified := clock d\<rparr>) = row_key (rows d ! fst m)"
    using assms(2) by (simp add: row_key_def)
  then have "map row_key ((rows d)[fst m := (snd m)\<lparr>modified := clock d\<rparr>]) = map row_key (rows d)"
    using assms(1) by (simp add: map_update list_update_same_conv)
  with assms(1) show ?thesis
    by (simp add: save_def Let_def log_call_def)
qed

lemma delete_many_loop_keys:
  "(\<And>m. m \<in> set modules \<Longrightarrow> fst (fst m) < length (rows d)
        \<and> row_key (snd (fst m)) = row_key (rows d ! fst (fst m)))
   \<Longrightarrow> map row_key (rows (snd (delete_many_loop flds modules d))) = map row_key (rows d)"
proof (induction modules arbitrary: d)
  case Nil
  then show ?case by simp
next
  case (Cons m modules)
  obtain sm uk where m: "m = (sm, uk)" by (cases m)
  let ?new = "case flds of None \<Rightarrow> Inr (JsonText [])
     | Some fs \<Rightarrow> (case json_loads (state (snd sm)) of Inl e \<Rightarrow> Inl e
          | Inr current_state \<Rightarrow> Inr (json_dumps (delete_fields fs current_state)))"
  show ?case
  proof (cases ?new)
    case (Inl e)
    then show ?thesis by (simp add: m)
  next
    case (Inr new_state)
    let ?m = "(fst sm, (snd sm)\<lparr>state := Some new_state\<rparr>)"
    from Cons.prems [of m] m have pk: "fst sm < length (rows d)"
      and rk: "row_key (snd sm) = row_key (rows d ! fst sm)" by simp_all
    have "fst ?m < length (rows d)" "row_key (snd ?m) = row_key (rows d ! fst ?m)"
      using pk rk by (simp_all add: row_key_def)
    from save_keys [OF this]
    have ok: "fst (save ?m d) = Inr ()"
      and keys: "map row_key (rows (snd (save ?m d))) = map row_key (rows d)" by simp_all
    from keys have len: "length (rows (snd (save ?m d))) = length (rows d)"
      by (metis length_map)
    have nth: "\<And>j. j < length (rows d) \<Longrightarrow> row_key (rows (snd (save ?m d)) ! j) = row_key (rows d ! j)"
      using keys len by (metis nth_map)
    have "map row_key (rows (snd (delete_many_loop flds modules (snd (save ?m d)))))
        = map row_key (rows (snd (save ?m d)))"
    proof (rule Cons.IH)
      fix x assume x: "x \<in> set modules"
      with Cons.prems [of x] len nth
      show "fst (fst x) < length (rows (snd (save ?m d)))
        \<and> row_key (snd (fst x)) = row_key (rows (snd (save ?m d)) ! fst (fst x))"
        by simp
    qed
    with keys have "map row_key (rows (snd (delete_many_loop flds modules (snd (save ?m d)))))
        = map row_key (rows d)" by simp
    moreover have "delete_many_loop flds (m # modules) d
        = delete_many_loop flds modules (snd (save ?m d))"
      using Inr ok by (cases "save ?m d") (simp add: m)
    ultimately show ?thesis by simp
  qed
qed

lemma found_modules_rows:
  fixes ks :: "('c::linorder) usage_key list"
  assumes "m \<in> set (fst (get_student_modules uname ks d))"
  shows "fst (fst m) < length (rows d) \<and> rows d ! fst (fst m) = snd (fst m)"
  using assms by (auto simp: get_student_modules_def query_groups_fst select_rows_in)

lemma delete_many_keys:
  fixes ks :: "('c::linorder) usage_key list"
  shows "map row_key (rows (snd (delete_many self uname ks scp flds d))) = map row_key (rows d)"
proof (cases "username (user self) \<noteq> uname \<or> scp \<noteq> user_state")
  case True
  then show ?thesis by (auto simp: delete_many_def)
next
  case False
  let ?ms = "fst (get_student_modules uname ks d)"
  let ?d1 = "snd (get_student_modules uname ks d)"
  have r1: "rows ?d1 = rows d"
    by (simp add: get_student_modules_def query_groups_rows)
  have "map row_key (rows (snd (delete_many_loop flds ?ms ?d1))) = map row_key (rows ?d1)"
    by (rule delete_many_loop_keys) (simp add: r1 found_modules_rows)
  with False r1 show ?thesis
    by (simp add: delete_many_def split_beta)
qed

lemma run_records:
  fixes ws :: "(('c::linorder), 'v) client_write list"
  assumes "unique_together d"
  shows "unique_together (run self ws d)
    \<and> (stored_rows (username (user self)) k (run self ws d) \<noteq> [])
        = (stored_rows (username (user self)) k d \<noteq> [] \<or> k \<in> set (written_keys ws))"
  using assms
proof (induction ws arbitrary: d)
  case Nil
  then show ?case by simp
next
  case (Cons w ws)
  show ?case
  proof (cases w)
    case (Set k' st)
    let ?d1 = "snd (set_state self (username (user self)) k' st user_state d)"
    from Cons.prems have u1: "unique_together ?d1" by (rule set_state_invariant)
    from Cons.IH [OF u1] set_state_records [OF Cons.prems, of self k k' st] Set
    show ?thesis by auto
  next
    case (Delete ks flds)
    let ?d1 = "snd (delete_many self (username (user self)) ks user_state flds d)"
    have keys: "map row_key (rows ?d1) = map row_key (rows d)"
      by (rule delete_many_keys)
    with Cons.prems have u1: "unique_together ?d1" by (simp add: unique_together_def)
    from keys have "row_key ` set (rows ?d1) = row_key ` set (rows d)"
      by (metis set_map)
    then have "(stored_rows (username (user self)) k ?d1 \<noteq> [])
        = (stored_rows (username (user self)) k d \<noteq> [])"
      by (simp add: has_record_keys)
    with Cons.IH [OF u1] Delete show ?thesis by simp
  qed
qed

text \<open>
  C5: \<open>get_many\<close> called by the owner yields entries for exactly those keys of the batch at
  which the owner has a record, so a key without a record has no entry, not an entry with
  an empty map; and \<open>get\<close> raises \<open>DoesNotExist\<close> exactly when the batch of the one key
  yields no entry, which is exactly when the owner has no record at the key; after any
  history of the owner's writes on an empty table, that is exactly when the history has
  never set the key.
\<close>

theorem missing_records_omitted:
  fixes ks :: "('c::linorder) usage_key list"
  shows "(\<exists>es. fst (get_many self (username (user self)) ks user_state flds d) = Inr es
            \<and> fst ` set es = {k \<in> set ks. stored_rows (username (user self)) k d \<noteq> []})
    \<and> (fst (get self (username (user self)) k user_state flds d) = Inl DoesNotExist)
        = (fst (get_many self (username (user self)) [k] user_state flds d) = Inr [])
    \<and> (fst (get self (username (user self)) k user_state flds d) = Inl DoesNotExist)
        = (stored_rows (username (user self)) k d = [])
    \<and> (fst (get self (username (user self)) k user_state flds
              (run self ws \<lparr>rows = [], clock = t, calls = cs\<rparr>)) = Inl DoesNotExist)
        = (k \<notin> set (written_keys ws))"
proof -
  let ?u = "username (user self)"
  let ?e = "\<lparr>rows = [], clock = t, calls = cs\<rparr> :: ('c, 'v) db"
  have "fst (get_many self ?u ks user_state flds d)
      = Inr (map (\<lambda>m. (snd m, state_fields (snd (fst m)))) (fst (get_student_modules ?u ks d)))"
    by (simp add: get_many_def get_many_loop_total split_beta)
  moreover have "fst ` set (map (\<lambda>m. (snd m, state_fields (snd (fst m))))
                      (fst (get_student_modules ?u ks d)))
      = {k \<in> set ks. stored_rows ?u k d \<noteq> []}"
    using found_keys [of ?u ks d] by (simp add: image_image)
  ultimately have a: "\<exists>es. fst (get_many self ?u ks user_state flds d) = Inr es
      \<and> fst ` set es = {k \<in> set ks. stored_rows ?u k d \<noteq> []}"
    by blast
  have b: "(fst (get self ?u k user_state flds d) = Inl DoesNotExist)
      = (fst (get_many self ?u [k] user_state flds d) = Inr [])"
    by (simp add: get_single get_many_def get_student_modules_single get_many_loop_total
        split: list.splits)
  have c: "\<And>d'. (fst (get self ?u k user_state flds d') = Inl DoesNotExist)
      = (stored_rows ?u k d' = [])"
    by (simp add: get_single stored_rows_select split: list.splits)
  have ut: "unique_together ?e" and se: "stored_rows ?u k ?e = []"
    by (simp_all add: unique_together_def stored_rows_def)
  from run_records [OF ut, of self ws k]
  have "(stored_rows ?u k (run self ws ?e) \<noteq> []) = (k \<in> set (written_keys ws))"
    by (simp add: se)
  then have "(stored_rows ?u k (run self ws ?e) = []) = (k \<notin> set (written_keys ws))"
    by blast
  with c [of "run self ws ?e"]
  have e: "(fst (get self ?u k user_state flds (run self ws ?e)) = Inl DoesNotExist)
      = (k \<notin> set (written_keys ws))"
    by simp
  from a b c [of d] e show ?thesis by blast
qed

subsection \<open>Modification dates\<close>








subsection \<open>Deleting fields\<close>

lemma delete_fields_map_of: "map_of (delete_fields names st) = map_of st |` (- set names)"
proof (induction names arbitrary: st)
  case Nil
  then show ?case by simp
next
  case (Cons n names)
  have "map_of (if dict_contains n st then dict_del n st else st) = (map_of st)(n := None)"
    by (auto simp: dict_contains_def dict_del_def delete_conv' fun_eq_iff)
  then show ?case
    by (simp add: Cons fun_eq_iff restrict_map_def)
qed

lemma state_fields_set [simp]:
  "state_fields (r\<lparr>state := Some (JsonText st), modified := t\<rparr>) = st"
  by (simp add: state_fields_def)

lemma delete_many_single:
  "delete_many self (username (user self)) [k] user_state flds d =
     delete_many_loop flds (map (\<lambda>sm. (sm, k)) (select_rows (at_key (username (user self)) k) d))
       (log_call (ChunkedFilter (username (user self)) (course_key k) [k]) d)"
  by (simp add: delete_many_def get_student_modules_single)

lemma delete_many_absent:
  assumes "stored_rows (username (user self)) k d = []"
  shows "delete_many self (username (user self)) [k] user_state flds d =
     (Inr (), log_call (ChunkedFilter (username (user self)) (course_key k) [k]) d)"
  using assms by (simp add: delete_many_single stored_rows_select)

lemma delete_many_null_state:
  assumes "select_rows (at_key (username (user self)) k) d = [(i, r)]" "state r = None"
  shows "fst (delete_many self (username (user self)) [k] user_state (Some names) d) = Inl TypeError"
  using assms by (simp add: delete_many_single)

lemma delete_many_saved:
  assumes sel: "select_rows (at_key (username (user self)) k) d = [(i, r)]"
    and new: "(case flds of None \<Rightarrow> Inr (JsonText [])
               | Some fs \<Rightarrow> (case json_loads (state r) of Inl e \<Rightarrow> Inl e
                    | Inr current_state \<Rightarrow> Inr (json_dumps (delete_fields fs current_state))))
              = Inr new_state"
  shows "fst (delete_many self (username (user self)) [k] user_state flds d) = Inr ()
     \<and> select_rows (at_key (username (user self)) k)
          (snd (delete_many self (username (user self)) [k] user_state flds d))
        = [(i, r\<lparr>state := Some new_state, modified := clock d\<rparr>)]"
proof -
  let ?u = "username (user self)"
  let ?y = "r\<lparr>state := Some new_state, modified := clock d\<rparr>"
  let ?d0 = "log_call (Save i) (log_call (ChunkedFilter ?u (course_key k) [k]) d)"
  let ?d2 = "?d0\<lparr>rows := (rows d)[i := ?y], clock := Suc (clock d)\<rparr>"
  have "(i, r) \<in> set (select_rows (at_key ?u k) d)"
    using sel by simp
  then have i: "i < length (rows d)" and r: "rows d ! i = r" and p: "at_key ?u k r"
    by (simp_all add: select_rows_in)
  have s: "delete_many self ?u [k] user_state flds d = (Inr (), ?d2)"
  proof (cases flds)
    case None
    with sel i new show ?thesis
      by (simp add: delete_many_single save_def log_call_def Let_def)
  next
    case (Some fs)
    with sel i new show ?thesis
      by (cases "json_loads (state r)")
        (simp_all add: delete_many_single save_def log_call_def Let_def)
  qed
  have "select_rows (at_key ?u k) ?d2
      = map (\<lambda>m. if fst m = i then (i, ?y) else m) (select_rows (at_key ?u k) d)"
    using i r p by (intro select_rows_update) (simp_all add: at_key_def log_call_def)
  with s sel show ?thesis by simp
qed



text \<open>
  C2 at a record with a null state: \<open>get\<close> reads the record as the empty map, yet
  \<open>delete_many\<close> with the field name \<open>a\<close> fails with \<open>TypeError\<close> instead of ignoring the
  name that is not stored.
\<close>

theorem delete_named_fails_on_null_state:
  "fst (get alice ''alice'' key1 user_state None db_null) = Inr []
   \<and> fst (delete_many alice ''alice'' [key1] user_state (Some [''a'']) db_null) = Inl TypeError"
proof -
  have u: "username (user alice) = ''alice''"
    by (simp add: alice_def)
  have sel: "select_rows (at_key (username (user alice)) key1) db_null = [(0, null_row)]"
    by (simp add: select_rows_def db_null_def at_key_def null_row_def alice_def key1_def)
  have "state null_row = None"
    by (simp add: null_row_def)
  with delete_many_null_state [OF sel, of "[''a'']"] get_single [of alice key1 None db_null]
  show ?thesis
    by (simp add: u sel [unfolded u] state_fields_def)
qed

text \<open>
  Where the record has a state, \<open>delete_many\<close> with a list of names removes exactly the
  named fields and keeps the others (\<open>delete_many_with_state\<close>); with \<open>fields=None\<close> it
  leaves the empty map (\<open>delete_many_saved\<close>); and a key without a record is passed over
  (\<open>delete_many_absent\<close>).
\<close>

lemma delete_many_with_state:
  assumes "stored_rows (username (user self)) k d = [r]" and "state r = Some (JsonText st)"
  shows "fst (delete_many self (username (user self)) [k] user_state (Some names) d) = Inr ()
    \<and> fst (get self (username (user self)) k user_state flds
             (snd (delete_many self (username (user self)) [k] user_state (Some names) d)))
        = Inr (delete_fields names st)
    \<and> map_of (delete_fields names st) = map_of st |` (- set names)"
proof -
  let ?u = "username (user self)"
  from assms(1) obtain i where sel: "select_rows (at_key ?u k) d = [(i, r)]"
    by (cases "select_rows (at_key ?u k) d") (auto simp: stored_rows_select)
  show ?thesis
    using delete_many_saved [OF sel, of "Some names" "JsonText (delete_fields names st)"] assms(2)
    by (simp add: get_single json_dumps_def delete_fields_map_of)
qed

subsection \<open>The fields filter of get\_many\<close>


subsection \<open>Single-key operations are batches of one\<close>

lemma one_key_batch_unique:
  assumes "unique_together d"
    and "fst (get_many self (username (user self)) [k] user_state flds d) = Inr es"
  shows "length es \<le> 1"
proof -
  have "es = map (\<lambda>m. (snd m, state_fields (snd (fst m))))
               (map (\<lambda>sm. (sm, k)) (select_rows (at_key (username (user self)) k) d))"
    using assms(2) by (simp add: get_many_def get_student_modules_single get_many_loop_total)
  then have "length es = length (stored_rows (username (user self)) k d)"
    by (simp add: stored_rows_select)
  with unique_stored_rows [OF assms(1), of self k] show ?thesis by simp
qed

text \<open>
  C7: each single-key operation is its plural counterpart on a batch of one key:
  \<open>get\<close> is the state of the first entry of \<open>get_many\<close> on \<open>[k]\<close>, and \<open>DoesNotExist\<close> if
  that batch is empty; \<open>set\<close> is \<open>set_many\<close> on \<open>{k: state}\<close>; \<open>delete\<close> is \<open>delete_many\<close> on
  \<open>[k]\<close>; \<open>get_mod_date\<close> is the dict of field and date collected from
  \<open>get_mod_date_many\<close> on \<open>[k]\<close>. This holds for all arguments, failures included. Under
  the table's unique index the owner's batch of one key has at most one entry
  (\<open>one_key_batch_unique\<close>), so the first entry is the only one.
\<close>

theorem single_key_is_batch_of_one:
  "get self uname k scp flds d =
     (case get_many self uname [k] scp flds d of
        (Inl e, d1) \<Rightarrow> (Inl e, d1)
      | (Inr [], d1) \<Rightarrow> (Inl DoesNotExist, d1)
      | (Inr (entry # _), d1) \<Rightarrow> (Inr (snd entry), d1))
   \<and> set_state self uname k st scp d = set_many self uname [(k, st)] scp d
   \<and> delete self uname k scp flds d = delete_many self uname [k] scp flds d
   \<and> get_mod_date self uname k scp flds d =
     (case get_mod_date_many self uname [k] scp flds d of
        (Inl e, d1) \<Rightarrow> (Inl e, d1)
      | (Inr results, d1) \<Rightarrow>
          (Inr (fold (\<lambda>(_, field, date) acc. AList.update field date acc) results []), d1))"
proof -
  have "get self uname k scp flds d =
     (case get_many self uname [k] scp flds d of
        (Inl e, d1) \<Rightarrow> (Inl e, d1)
      | (Inr [], d1) \<Rightarrow> (Inl DoesNotExist, d1)
      | (Inr (entry # _), d1) \<Rightarrow> (Inr (snd entry), d1))"
    by (auto simp: get_def get_many_def split: prod.splits sum.splits list.splits)
  moreover have "set_state self uname k st scp d = set_many self uname [(k, st)] scp d"
    by (simp add: set_state_def set_many_def)
  moreover have "delete self uname k scp flds d = delete_many self uname [k] scp flds d"
    by (simp add: delete_def delete_many_def)
  ultimately show ?thesis
    by (simp add: get_mod_date_def)
qed

subsection \<open>The identity check\<close>

text \<open>
  C9: when the username differs from the username of the user the client was made for,
  every operation that takes a username fails with \<open>AssertionError\<close>, whatever the keys
  and the scope are, and the store is as it was: no row changed and no call made.
\<close>

theorem username_mismatch_asserts:
  assumes "uname \<noteq> username (user self)"
  shows "get self uname k scp flds d = (Inl AssertionError, d)
    \<and> get_many self uname ks scp flds d = (Inl AssertionError, d)
    \<and> set_state self uname k st scp d = (Inl AssertionError, d)
    \<and> set_many self uname kst scp d = (Inl AssertionError, d)
    \<and> delete self uname k scp flds d = (Inl AssertionError, d)
    \<and> delete_many self uname ks scp flds d = (Inl AssertionError, d)
    \<and> get_mod_date self uname k scp flds d = (Inl AssertionError, d)
    \<and> get_mod_date_many self uname ks scp flds d = (Inl AssertionError, d)
    \<and> get_history self uname k scp d = (Inl AssertionError, d)"
  using assms
  by (auto simp: get_def get_many_def set_state_def set_many_def delete_def delete_many_def
      get_mod_date_def get_mod_date_many_def get_history_def)

theorem username_mismatch_asserts_witness:
  "''bob'' \<noteq> username (user alice)
    \<and> get alice ''bob'' key1 content None db_null = (Inl AssertionError, db_null)
    \<and> get_many alice ''bob'' [key1, key2] content None db_null = (Inl AssertionError, db_null)
    \<and> set_state alice ''bob'' key1 [(''a'', 1)] content db_null = (Inl AssertionError, db_null)
    \<and> set_many alice ''bob'' [(key1, [(''a'', 1)])] content db_null
        = (Inl AssertionError, db_null)
    \<and> delete alice ''bob'' key1 content None db_null = (Inl AssertionError, db_null)
    \<and> delete_many alice ''bob'' [key1, key2] content None db_null = (Inl AssertionError, db_null)
    \<and> get_mod_date alice ''bob'' key1 content None db_null = (Inl AssertionError, db_null)
    \<and> get_mod_date_many alice ''bob'' [key1, key2] content None db_null
        = (Inl AssertionError, db_null)
    \<and> get_history alice ''bob'' key1 content db_null = (Inl AssertionError, db_null)"
proof -
  have h: "''bob'' \<noteq> username (user alice)"
    by (simp add: alice_def)
  show ?thesis
    using h username_mismatch_asserts
      [OF h, of key1 content None db_null "[key1, key2]" "[(''a'', 1)]" "[(key1, [(''a'', 1)])]"]
    by simp
qed

subsection \<open>The scope check\<close>

text \<open>
  C4, as the claim states it, fails: with a username that is not the client's and a scope
  that is not \<open>user_state\<close>, the assertion fails first and the error is
  \<open>AssertionError\<close>, not the \<open>ValueError\<close> of the scope check.
\<close>

theorem scope_check_counterexample:
  "get_many alice ''bob'' [key1] content None db0 = (Inl AssertionError, db0)
   \<and> get_many alice ''bob'' [key1] content None db0 \<noteq> (Inl ValueError, db0)"
  by (simp add: get_many_def alice_def)

text \<open>
  C4, amended: when the username is the client's, each of \<open>get\<close>, \<open>set\<close>, \<open>delete\<close>,
  \<open>get_mod_date\<close> and their plural forms, called with a scope other than \<open>user_state\<close>, fails
  with \<open>ValueError\<close> (the spec's UnsupportedScope), and the store is as it was: no row
  changed and no call made.
\<close>

theorem unsupported_scope_fails:
  assumes "scp \<noteq> user_state"
  shows "get self (username (user self)) k scp flds d = (Inl ValueError, d)
    \<and> get_many self (username (user self)) ks scp flds d = (Inl ValueError, d)
    \<and> set_state self (username (user self)) k st scp d = (Inl ValueError, d)
    \<and> set_many self (username (user self)) kst scp d = (Inl ValueError, d)
    \<and> delete self (username (user self)) k scp flds d = (Inl ValueError, d)
    \<and> delete_many self (username (user self)) ks scp flds d = (Inl ValueError, d)
    \<and> get_mod_date self (username (user self)) k scp flds d = (Inl ValueError, d)
    \<and> get_mod_date_many self (username (user self)) ks scp flds d = (Inl ValueError, d)"
  using assms
  by (auto simp: get_def get_many_def set_state_def set_many_def delete_def delete_many_def
      get_mod_date_def get_mod_date_many_def)

theorem unsupported_scope_fails_witness:
  "content \<noteq> user_state
    \<and> get alice (username (user alice)) key1 content None db_null = (Inl ValueError, db_null)
    \<and> get_many alice (username (user alice)) [key1, key2] content None db_null
        = (Inl ValueError, db_null)
    \<and> set_state alice (username (user alice)) key1 [(''a'', 1)] content db_null
        = (Inl ValueError, db_null)
    \<and> set_many alice (username (user alice)) [(key1, [(''a'', 1)])] content db_null
        = (Inl ValueError, db_null)
    \<and> delete alice (username (user alice)) key1 content None db_null = (Inl ValueError, db_null)
    \<and> delete_many alice (username (user alice)) [key1, key2] content None db_null
        = (Inl ValueError, db_null)
    \<and> get_mod_date alice (username (user alice)) key1 content None db_null
        = (Inl ValueError, db_null)
    \<and> get_mod_date_many alice (username (user alice)) [key1, key2] content None db_null
        = (Inl ValueError, db_null)"
proof -
  have h: "content \<noteq> user_state"
    by simp
  show ?thesis
    using h unsupported_scope_fails
      [OF h, of alice key1 None db_null "[key1, key2]" "[(''a'', 1)]" "[(key1, [(''a'', 1)])]"]
    by simp
qed

end
